theory Spec2Isabelle
  imports Complex_Main "HOL-Library.Word"
begin

section \<open>Data model\<close>

text \<open>
  A shallow embedding of the scene graph of county-engine: \<open>Act\<close> (Act.cpp),
  \<open>Stage\<close> (Stage.cpp) and \<open>AbstractNode\<close> (AbstractNode.cpp).

  Conventions of the model.
  \<^item> \<open>sf::Vector2i\<close> is a pair of \<open>int\<close>. The arithmetic of the C++ \<open>int\<close> is
    32-bit: a result outside the range, which the language leaves undefined, wraps
    around as it does on the machines the engine runs on (\<open>int32\<close>). Where the code mixes
    signed and unsigned 32-bit values (\<open>Act::update\<close>) the values are \<open>32 word\<close>.
  \<^item> A finite \<open>float\<close> is idealised as a \<open>real\<close>: rounding is not modelled. A
    \<open>float\<close> quotient can be infinite or not a number (\<open>flt\<close>).
  \<^item> A dereference of a null pointer and an iterator outside its container are
    undefined behaviour in the source; the model returns a \<open>fault\<close> there.
  \<^item> Calls of the virtual event hooks of a node (\<open>onMouseEntered\<close>, \<open>onMouseLeft\<close>,
    ...) are recorded in a trace, in the order the code makes them.
\<close>

type_synonym vec2i = "int \<times> int"
type_synonym vec2f = "real \<times> real"
type_synonym vec2u = "32 word \<times> 32 word"

datatype fault = NullDereference | IteratorOutOfRange | DanglingPointer

text \<open>The value of a 32-bit \<open>int\<close> that holds the result \<open>k\<close> of an operation.\<close>

definition int32 :: "int \<Rightarrow> int" where
  "int32 k = sint (word_of_int k :: 32 word)"

text \<open>
  A \<open>float\<close> that a division has produced: the quotient of two finite numbers is
  finite when the divisor is not zero, an infinity when only the divisor is zero, and
  not a number when both are. \<open>fless\<close> is \<open><\<close> on these values (false when a side
  is not a number), and \<open>fmin\<close> is \<open>std::min\<close>: \<open>(b < a) ? b : a\<close>.
\<close>

datatype flt = Finite real | PlusInf | MinusInf | NaN

definition fdiv :: "real \<Rightarrow> real \<Rightarrow> flt" where
  "fdiv a b =
    (if b \<noteq> 0 then Finite (a / b)
     else if 0 < a then PlusInf
     else if a < 0 then MinusInf
     else NaN)"

fun fless :: "flt \<Rightarrow> flt \<Rightarrow> bool" where
  "fless NaN b = False"
| "fless a NaN = False"
| "fless (Finite x) (Finite y) = (x < y)"
| "fless (Finite x) PlusInf = True"
| "fless (Finite x) MinusInf = False"
| "fless PlusInf b = False"
| "fless MinusInf MinusInf = False"
| "fless MinusInf b = True"

definition fmin :: "flt \<Rightarrow> flt \<Rightarrow> flt" where
  "fmin a b = (if fless b a then b else a)"

subsection \<open>Act\<close>

datatype Mode = STATIC | MOVABLE_BY_MOUSE | CENTERED_ON_NODE

text \<open>A \<open>Node *\<close> held by the Act is the address of the node it points to.\<close>

type_synonym node_ref = nat

datatype node_call =
    OnMouseLeft
  | OnMouseEntered
  | OnMouseMoved vec2i
  | OnLeftMouseButtonPressed
  | OnLeftMouseButtonReleased
  | OnRightMouseButtonReleased

text \<open>
  A \<open>TransformableNode\<close>, as far as the Act uses it. Its class is not part of the
  sources: \<open>position\<close>, \<open>origin\<close> and \<open>scale\<close> are what \<open>setPos\<close>, \<open>setOrigin\<close>
  and \<open>setScale\<close> store, and \<open>width\<close>, \<open>height\<close>, \<open>halfX\<close>, \<open>halfY\<close> are the
  values its virtual accessors \<open>getWidth()\<close>, \<open>getHeight()\<close>, \<open>getHalfX()\<close> and
  \<open>getHalfY()\<close> return.
\<close>

record tnode =
  position :: vec2f
  origin :: vec2f
  scale :: flt
  width :: real
  height :: real
  halfX :: real
  halfY :: real

record Act =
  contentMode :: Mode
  savedMousePosition :: vec2i
  isRightMouseButtonPressed :: bool
  isMouseMovedWithRightButton :: bool
  selectedNode :: "node_ref option"
  content :: "tnode option"
  contentLayer :: tnode
  leftUi :: "tnode option"
  rightUi :: "tnode option"
  topUi :: "tnode option"
  bottomUi :: "tnode option"
  windowSize :: vec2u
  calls :: "(node_ref \<times> node_call) list"

definition call :: "node_ref \<Rightarrow> node_call \<Rightarrow> Act \<Rightarrow> Act" where
  "call n c a = a\<lparr>calls := calls a @ [(n, c)]\<rparr>"

definition move :: "real \<Rightarrow> real \<Rightarrow> tnode \<Rightarrow> tnode" where
  "move dx dy t = t\<lparr>position := (fst (position t) + dx, snd (position t) + dy)\<rparr>"

definition setPos :: "real \<Rightarrow> real \<Rightarrow> tnode \<Rightarrow> tnode" where
  "setPos x y t = t\<lparr>position := (x, y)\<rparr>"

definition setX :: "real \<Rightarrow> tnode \<Rightarrow> tnode" where
  "setX v t = setPos v (snd (position t)) t"

definition setY :: "real \<Rightarrow> tnode \<Rightarrow> tnode" where
  "setY v t = setPos (fst (position t)) v t"

definition setOrigin :: "real \<Rightarrow> real \<Rightarrow> tnode \<Rightarrow> tnode" where
  "setOrigin x y t = t\<lparr>origin := (x, y)\<rparr>"

definition setScale :: "flt \<Rightarrow> tnode \<Rightarrow> tnode" where
  "setScale s t = t\<lparr>scale := s\<rparr>"

text \<open>
  \<open>Act::onMouseMoved\<close>. \<open>selectNode\<close> stands for the inherited \<open>Node::select\<close>, whose
  result the method stores in \<open>newSelectedNode\<close>; the version of it that returns the
  node is not part of the sources, so it is a parameter.
\<close>

definition onMouseMoved :: "(vec2i \<Rightarrow> node_ref option) \<Rightarrow> vec2i \<Rightarrow> Act \<Rightarrow> fault + Act" where
  "onMouseMoved selectNode mousePosition a =
    (let newSelectedNode = selectNode mousePosition;
         a1 = (if selectedNode a \<noteq> newSelectedNode
               then (let a' = (case selectedNode a of
                                 Some n \<Rightarrow> call n OnMouseLeft a
                               | None \<Rightarrow> a);
                         a'' = a'\<lparr>selectedNode := newSelectedNode\<rparr>
                     in (case selectedNode a'' of
                           Some n \<Rightarrow> call n OnMouseEntered a''
                         | None \<Rightarrow> a''))
               else a);
         a2 = (case selectedNode a1 of
                 Some n \<Rightarrow> call n (OnMouseMoved mousePosition) a1
               | None \<Rightarrow> a1)
     in if contentMode a2 = MOVABLE_BY_MOUSE
        then (if isRightMouseButtonPressed a2
              then (let offset = (int32 (fst mousePosition - fst (savedMousePosition a2)),
                                  int32 (snd mousePosition - snd (savedMousePosition a2)));
                        a3 = (if int32 (int32 \<bar>fst offset\<bar> + int32 \<bar>snd offset\<bar>) > 10
                              then a2\<lparr>isMouseMovedWithRightButton := True\<rparr>
                              else a2)
                    in (case content a3 of
                          None \<Rightarrow> Inl NullDereference
                        | Some c \<Rightarrow>
                            Inr (a3\<lparr>content := Some (move (real_of_int (fst offset))
                                                           (real_of_int (snd offset)) c),
                                     savedMousePosition := mousePosition\<rparr>)))
              else Inr (a2\<lparr>savedMousePosition := mousePosition\<rparr>))
        else Inr a2)"

definition onRightMouseButtonPressed :: "Act \<Rightarrow> Act" where
  "onRightMouseButtonPressed a =
    (if contentMode a = MOVABLE_BY_MOUSE
     then a\<lparr>isRightMouseButtonPressed := True, isMouseMovedWithRightButton := False\<rparr>
     else a)"

text \<open>
  \<open>Act::onRightMouseButtonReleased\<close>. \<open>checkSelectable\<close> reads the flag of the node
  that \<open>selectedNode\<close> points to.
\<close>

definition onRightMouseButtonReleased :: "(node_ref \<Rightarrow> bool) \<Rightarrow> Act \<Rightarrow> Act" where
  "onRightMouseButtonReleased checkSelectable a =
    (let a1 = (if contentMode a = MOVABLE_BY_MOUSE
               then a\<lparr>isRightMouseButtonPressed := False\<rparr>
               else a)
     in (case selectedNode a1 of
           Some n \<Rightarrow>
             if \<not> isMouseMovedWithRightButton a1
             then (if checkSelectable n
                   then call n OnRightMouseButtonReleased a1
                   else a1\<lparr>selectedNode := None\<rparr>)
             else a1
         | None \<Rightarrow> a1))"

text \<open>A run of pointer moves: the first fault ends it.\<close>

fun onMouseMoved_all :: "(vec2i \<Rightarrow> node_ref option) \<Rightarrow> vec2i list \<Rightarrow> Act \<Rightarrow> fault + Act" where
  "onMouseMoved_all selectNode [] a = Inr a"
| "onMouseMoved_all selectNode (p # ps) a =
    (case onMouseMoved selectNode p a of
       Inl e \<Rightarrow> Inl e
     | Inr a' \<Rightarrow> onMouseMoved_all selectNode ps a')"

text \<open>
  The Manhattan length of an offset as the code computes it,
  \<open>std::abs(offset.x) + std::abs(offset.y)\<close> in 32-bit \<open>int\<close>, and the offsets of the
  single steps of a run of pointer positions that starts at \<open>start\<close>.
\<close>

definition manhattan :: "vec2i \<Rightarrow> int" where
  "manhattan v = int32 (int32 \<bar>fst v\<bar> + int32 \<bar>snd v\<bar>)"

fun stepOffsets :: "vec2i \<Rightarrow> vec2i list \<Rightarrow> vec2i list" where
  "stepOffsets start [] = []"
| "stepOffsets start (p # ps) =
    (int32 (fst p - fst start), int32 (snd p - snd start)) # stepOffsets p ps"

text \<open>
  \<open>Act::setUpNodes\<close>. \<open>resizeUi\<close> is a hook of the Act whose body is not part of the
  sources, and \<open>K\<close> is \<open>Parameters::get().getK()\<close>: both are parameters. The window
  size is unsigned and is converted to \<open>float\<close> by the subtractions. The four slots
  and the content layer hold distinct nodes (\<open>addChild\<close> is not to be given a node
  twice), so each is a field of its own.
\<close>

definition windowWidth :: "Act \<Rightarrow> real" where
  "windowWidth a = real (unat (fst (windowSize a)))"

definition windowHeight :: "Act \<Rightarrow> real" where
  "windowHeight a = real (unat (snd (windowSize a)))"

definition fullLeftIndent :: "Act \<Rightarrow> real" where
  "fullLeftIndent a = (case leftUi a of Some l \<Rightarrow> width l | None \<Rightarrow> 0)"

definition fullTopIndent :: "Act \<Rightarrow> real" where
  "fullTopIndent a = (case topUi a of Some t \<Rightarrow> height t | None \<Rightarrow> 0)"

definition freeWidth :: "Act \<Rightarrow> real" where
  "freeWidth a =
    (let fw = windowWidth a - fullLeftIndent a
     in (case rightUi a of Some r \<Rightarrow> fw - width r | None \<Rightarrow> fw))"

definition freeHeight :: "Act \<Rightarrow> real" where
  "freeHeight a =
    (let fh = windowHeight a - fullTopIndent a
     in (case bottomUi a of Some b \<Rightarrow> fh - height b | None \<Rightarrow> fh))"

definition setUpNodes :: "(Act \<Rightarrow> Act) \<Rightarrow> real \<Rightarrow> Act \<Rightarrow> Act" where
  "setUpNodes resizeUi K a0 =
    (let a = resizeUi a0;
         left = fullLeftIndent a;
         top = fullTopIndent a;
         a1 = a\<lparr>leftUi := map_option (setY top) (leftUi a)\<rparr>;
         a2 = a1\<lparr>rightUi := map_option (\<lambda>r. setPos (windowWidth a1 - width r) top r) (rightUi a1)\<rparr>;
         fw = freeWidth a2;
         a3 = a2\<lparr>topUi := map_option (setX left) (topUi a2)\<rparr>;
         a4 = a3\<lparr>bottomUi := map_option (\<lambda>b. setPos left (windowHeight a3 - height b) b) (bottomUi a3)\<rparr>;
         fh = freeHeight a4;
         cl = contentLayer a4
     in if contentMode a4 = STATIC
        then (let cl1 = setScale (fmin (fdiv fw (width cl)) (fdiv fh (height cl))) cl;
                  cl2 = setOrigin (halfX cl1) (halfY cl1) cl1;
                  cl3 = setPos (left + fw / 2) (top + fh / 2) cl2
              in a4\<lparr>contentLayer := cl3\<rparr>)
        else a4\<lparr>contentLayer := setScale (Finite K) cl\<rparr>)"

text \<open>
  \<open>Act::update\<close>, the part after \<open>Node::update()\<close> and before \<open>drawToTarget\<close> (the two
  traversals do not touch the fields below). \<open>savedMousePosition\<close> is an \<open>int\<close> and
  \<open>activeArea\<close> and the window size are \<open>unsigned int\<close>, so C++ converts the saved
  coordinate to \<open>unsigned int\<close> before it compares: \<open>word_of_int\<close>. The subtraction
  \<open>window.getSize().x - activeArea\<close> is unsigned and wraps. \<open>getIndent()\<close>,
  \<open>SCROLL_SPEED\<close> and \<open>getK()\<close> are declared outside the sources: \<open>indent\<close> has the
  type of the variable that receives its half, and \<open>speed\<close> stands for the product
  \<open>SCROLL_SPEED * Parameters::get().getK()\<close>. \<open>centre\<close> is the point
  \<open>center->getCombinedTransform().transformPoint(0, 0)\<close>, \<open>None\<close> when \<open>center\<close> is null.
\<close>

datatype edge = NearStart | NearEnd | Inside

definition activeArea :: "32 word \<Rightarrow> 32 word" where
  "activeArea indent = indent div 2"

definition edgeBranch :: "32 word \<Rightarrow> 32 word \<Rightarrow> 32 word \<Rightarrow> edge" where
  "edgeBranch saved extent area =
    (if saved < area then NearStart
     else if saved > extent - area then NearEnd
     else Inside)"

text \<open>The conversion of a \<open>float\<close> to \<open>int\<close> drops the fraction.\<close>

definition toInt :: "real \<Rightarrow> int" where
  "toInt r = (if 0 \<le> r then \<lfloor>r\<rfloor> else \<lceil>r\<rceil>)"

definition edgeOffset :: "edge \<Rightarrow> real \<Rightarrow> int" where
  "edgeOffset e speed =
    (case e of
       NearStart \<Rightarrow> toInt (0 + speed)
     | NearEnd \<Rightarrow> toInt (0 - speed)
     | Inside \<Rightarrow> 0)"

definition Act_update :: "32 word \<Rightarrow> real \<Rightarrow> vec2f option \<Rightarrow> Act \<Rightarrow> fault + Act" where
  "Act_update indent speed centre a =
    (if contentMode a = MOVABLE_BY_MOUSE
     then (let area = activeArea indent;
               ox = edgeOffset (edgeBranch (word_of_int (fst (savedMousePosition a)))
                                  (fst (windowSize a)) area) speed;
               oy = edgeOffset (edgeBranch (word_of_int (snd (savedMousePosition a)))
                                  (snd (windowSize a)) area) speed
           in Inr (a\<lparr>contentLayer := move (real_of_int ox) (real_of_int oy) (contentLayer a)\<rparr>))
     else if contentMode a = CENTERED_ON_NODE
     then (case centre of
             None \<Rightarrow> Inl NullDereference
           | Some offset \<Rightarrow>
               Inr (a\<lparr>contentLayer :=
                      move (real (unat (fst (windowSize a) div 2)) - fst offset)
                           (real (unat (snd (windowSize a) div 2)) - snd offset)
                           (contentLayer a)\<rparr>))
     else Inr a)"

subsection \<open>Stage\<close>

text \<open>
  The window events that \<open>pollEvent\<close> yields, and what \<open>Stage::update\<close> does with
  them: the calls it makes on the active Act, on the parameters and on its own window,
  in order. The constructor of the Stage already calls through \<open>currentAct\<close>, so a
  Stage has an Act. The queue that \<open>pollEvent\<close> drains is the list of events.
\<close>

datatype mouse_button = Left | Right | Middle | XButton1 | XButton2

datatype event =
    Closed
  | Resized "32 word" "32 word"
  | LostFocus
  | GainedFocus
  | MouseButtonPressed mouse_button int int
  | MouseButtonReleased mouse_button int int
  | MouseMoved int int
  | MouseEntered
  | MouseLeft
  | KeyPressed nat

datatype act_call =
    ActOnLeftMouseButtonPressed
  | ActOnLeftMouseButtonReleased
  | ActOnRightMouseButtonPressed
  | ActOnRightMouseButtonReleased
  | ActOnMouseMoved vec2i
  | ActOnMouseLeft
  | ActSetUpNodes
  | ActGetBgColor
  | ActUpdate

datatype stage_effect =
    CallAct act_call
  | ParametersUpdate "32 word" "32 word"
  | SetView
  | Clear
  | Display

record Stage =
  isOpen :: bool
  view :: "real \<times> real \<times> real \<times> real"
  effects :: "stage_effect list"

definition emit :: "stage_effect \<Rightarrow> Stage \<Rightarrow> Stage" where
  "emit e s = s\<lparr>effects := effects s @ [e]\<rparr>"

definition updateView :: "Stage \<Rightarrow> Stage" where
  "updateView s = emit SetView (emit (CallAct ActSetUpNodes) s)"

fun handleEvent :: "event \<Rightarrow> Stage \<Rightarrow> Stage" where
  "handleEvent (Resized w h) s =
     updateView ((emit (ParametersUpdate w h) s)\<lparr>view := (0, 0, real (unat w), real (unat h))\<rparr>)"
| "handleEvent (MouseButtonPressed b x y) s =
     (if b = Left then emit (CallAct ActOnLeftMouseButtonPressed) s
      else if b = Right then emit (CallAct ActOnRightMouseButtonPressed) s
      else s)"
| "handleEvent (MouseButtonReleased b x y) s =
     (if b = Left then emit (CallAct ActOnLeftMouseButtonReleased) s
      else if b = Right then emit (CallAct ActOnRightMouseButtonReleased) s
      else s)"
| "handleEvent Closed s = s\<lparr>isOpen := False\<rparr>"
| "handleEvent _ s = s"

fun pollEvents :: "event list \<Rightarrow> Stage \<Rightarrow> Stage" where
  "pollEvents [] s = s"
| "pollEvents (e # es) s = pollEvents es (handleEvent e s)"




text \<open>A concrete Act for evaluation: pannable content at the origin, nothing selected.\<close>

definition tnode0 :: tnode where
  "tnode0 = \<lparr>position = (0, 0), origin = (0, 0), scale = Finite 1,
             width = 0, height = 0, halfX = 0, halfY = 0\<rparr>"

definition act0 :: "Mode \<Rightarrow> Act" where
  "act0 m = \<lparr>contentMode = m, savedMousePosition = (0, 0),
             isRightMouseButtonPressed = False, isMouseMovedWithRightButton = False,
             selectedNode = None, content = Some tnode0, contentLayer = tnode0,
             leftUi = None, rightUi = None, topUi = None, bottomUi = None,
             windowSize = (800, 600), calls = []\<rparr>"

text \<open>An Act whose saved pointer position lies above and left of the window.\<close>

definition actNeg :: Act where
  "actNeg = (act0 MOVABLE_BY_MOUSE)\<lparr>savedMousePosition := (- 1, - 3)\<rparr>"

text \<open>
  Acts for the layout: the content of size (200, 100) in a window of (100, 100) with
  no docked UI; the same content in a window of (200, 200) whose four docked UI leave
  a free rectangle of (100, 100); a content layer of width 0; and a window of
  (800, 600) with a left and a top UI that the application has moved before.
\<close>

definition actStatic :: Act where
  "actStatic = (act0 STATIC)\<lparr>windowSize := (100, 100),
      contentLayer := tnode0\<lparr>width := 200, height := 100, halfX := 100, halfY := 50\<rparr>\<rparr>"

definition actStaticDocked :: Act where
  "actStaticDocked = (act0 STATIC)\<lparr>windowSize := (200, 200),
      contentLayer := tnode0\<lparr>width := 200, height := 100, halfX := 100, halfY := 50\<rparr>,
      leftUi := Some (tnode0\<lparr>width := 50, height := 100\<rparr>),
      rightUi := Some (tnode0\<lparr>width := 50, height := 100\<rparr>),
      topUi := Some (tnode0\<lparr>width := 200, height := 40\<rparr>),
      bottomUi := Some (tnode0\<lparr>width := 200, height := 60\<rparr>)\<rparr>"

definition actEmpty :: Act where
  "actEmpty = (act0 STATIC)\<lparr>windowSize := (100, 100),
      contentLayer := tnode0\<lparr>width := 0, height := 100\<rparr>\<rparr>"

definition actDocked :: Act where
  "actDocked = (act0 STATIC)\<lparr>
      leftUi := Some (tnode0\<lparr>position := (5, 0), width := 50, height := 600\<rparr>),
      topUi := Some (tnode0\<lparr>position := (0, 7), width := 800, height := 30\<rparr>)\<rparr>"

subsection \<open>AbstractNode\<close>

text \<open>
  The scene graph is a tree: a node owns its children, and \<open>parent\<close> is the node that
  holds it in its \<open>children\<close> (\<open>addChild\<close> sets both, and is not to be given a
  node twice). The model is the tree itself. \<open>nid\<close> is the address of the node;
  \<open>selectedChild\<close> is a pointer and is modelled by the address it holds. What the
  code reaches through \<open>parent\<close> is passed to the functions below as the fields of the
  parent, or of the chain of ancestors.

  \<open>'t\<close> is \<open>sf::Transform\<close>; the product of two transforms and \<open>transformRect\<close>
  belong to SFML and are parameters. \<open>transform\<close> is
  \<open>getTransformable().getTransform()\<close> and \<open>rect\<close> is \<open>getRect()\<close>, both supplied by
  the concrete node class. An Act is a node too: \<open>asAct\<close> holds the \<open>mockTransform\<close>
  that its override of \<open>getCombinedTransform\<close> returns and the window that its
  override of \<open>getWindow\<close> returns.
\<close>

record FloatRect =
  rect_left :: real
  rect_top :: real
  rect_width :: real
  rect_height :: real

record Window =
  hasFocus :: bool
  getSize :: vec2u

record 't AbstractNode =
  nid :: node_ref
  isSelectable :: bool
  isTransformed :: bool
  combinedTransform :: 't
  transform :: 't
  rect :: FloatRect
  selectedChild :: "node_ref option"
  asAct :: "('t \<times> Window) option"

text \<open>
  A node as an object of a store, where nodes are held by address (the selection is
  modelled there, see below): it carries, beyond the fields above, the \<open>parent\<close>
  pointer (\<open>getParent\<close>) and the \<open>children\<close> vector (\<open>getChildren\<close>) as addresses.
\<close>

record 't Obj = "'t AbstractNode" +
  getParent :: "node_ref option"
  getChildren :: "node_ref list"


datatype 't node = Node (fields: "'t AbstractNode") (children: "'t node list")

type_synonym trace = "(node_ref \<times> node_call) list"

text \<open>\<open>AbstractNode::makeTransformed\<close>.\<close>

fun makeTransformed :: "'t node \<Rightarrow> 't node" where
  "makeTransformed (Node f cs) = Node (f\<lparr>isTransformed := True\<rparr>) (map makeTransformed cs)"

text \<open>
  \<open>AbstractNode::setParent(nullptr)\<close>, as \<open>removeChild\<close> and \<open>removeChildren\<close> call it:
  the node leaves the tree, marked transformed.
\<close>

definition setParent_null :: "'t node \<Rightarrow> 't node" where
  "setParent_null n = makeTransformed n"

text \<open>
  \<open>AbstractNode::removeChildren\<close>. \<open>firstIndex\<close> is an \<open>unsigned long\<close> and
  \<open>lastIndex\<close> a \<open>long\<close>. \<open>children.begin() + firstIndex\<close> past \<open>children.end()\<close>,
  \<open>children.begin() + lastIndex\<close> before \<open>children.begin()\<close>, and a range whose end
  lies before its begin are undefined behaviour: a fault. The result is the node and
  the children it gave up (none when they are deleted).
\<close>

definition removeChildren :: "bool \<Rightarrow> nat \<Rightarrow> int \<Rightarrow> 't node \<Rightarrow> fault + ('t node \<times> 't node list)" where
  "removeChildren toDelete firstIndex lastIndex n =
    (let cs = children n;
         toEnd = (lastIndex = - 1 \<or> lastIndex > int (length cs))
     in if firstIndex > length cs then Inl IteratorOutOfRange
        else if \<not> toEnd \<and> lastIndex < 0 then Inl IteratorOutOfRange
        else (let e = (if toEnd then length cs else nat lastIndex)
              in if e < firstIndex then Inl IteratorOutOfRange
                 else (let removed = take (e - firstIndex) (drop firstIndex cs);
                           detached = (if toDelete then [] else map setParent_null removed)
                       in Inr (Node (fields n) (take firstIndex cs @ drop e cs), detached))))"

text \<open>
  A \<open>selectedChild\<close> pointer leads to a node that is alive, whether or not it is still
  a child of the node that holds the pointer (\<open>removeChild\<close> does not reset it). For
  the functions that only follow these pointers the state is the store: the fields of
  each live node, by its address. An address with no live node is a dangling pointer.

  \<open>AbstractNode::deselectChild\<close>, with \<open>AbstractNode::onMouseLeft\<close>, whose body is the
  call of \<open>deselectChild()\<close>: the call \<open>selectedChild->onMouseLeft()\<close> is recorded and
  run on the node that the pointer leads to, and then the pointer is set to null. The
  recursion follows the pointers as far as they lead; \<open>fuel\<close> bounds its depth, and
  the result \<open>None\<close> says that the fuel ran out. The hooks are virtual: the nodes
  are of classes that keep the \<open>onMouseLeft\<close> of \<open>AbstractNode\<close>.
\<close>

type_synonym ('t, 'z) store = "node_ref \<Rightarrow> ('t, 'z) AbstractNode_scheme option"

fun deselectChild ::
  "nat \<Rightarrow> ('t, 'z) store \<Rightarrow> node_ref \<Rightarrow> (fault + (('t, 'z) store \<times> trace)) option" where
  "deselectChild 0 s this = None"
| "deselectChild (Suc fuel) s this =
    (case s this of
       None \<Rightarrow> Some (Inl DanglingPointer)
     | Some f \<Rightarrow>
         (case selectedChild f of
            None \<Rightarrow> Some (Inr (s, []))
          | Some child \<Rightarrow>
              (case deselectChild fuel s child of
                 None \<Rightarrow> None
               | Some (Inl e) \<Rightarrow> Some (Inl e)
               | Some (Inr (s1, tr)) \<Rightarrow>
                   Some (Inr (s1(this := map_option (\<lambda>g. g\<lparr>selectedChild := None\<rparr>) (s1 this)),
                              (child, OnMouseLeft) # tr)))))"

text \<open>The call \<open>onMouseLeft()\<close> on a node: it is recorded, and runs \<open>deselectChild()\<close>.\<close>

definition onMouseLeft ::
  "nat \<Rightarrow> ('t, 'z) store \<Rightarrow> node_ref \<Rightarrow> (fault + (('t, 'z) store \<times> trace)) option" where
  "onMouseLeft fuel s this =
    (case deselectChild fuel s this of
       None \<Rightarrow> None
     | Some (Inl e) \<Rightarrow> Some (Inl e)
     | Some (Inr (s1, tr)) \<Rightarrow> Some (Inr (s1, (this, OnMouseLeft) # tr)))"

text \<open>
  \<open>AbstractNode::setSelectable\<close> on the node \<open>this\<close>, whose \<open>parent\<close> pointer is
  \<open>parent\<close> (\<open>None\<close>: null, and \<open>parent->checkChildSelected(this)\<close> dereferences it).
  \<open>onMouseEntered()\<close> and \<open>onMouseLeft()\<close> are calls on the node itself.
\<close>

definition checkChildSelected :: "('t, 'z) AbstractNode_scheme \<Rightarrow> node_ref \<Rightarrow> bool" where
  "checkChildSelected p child = (selectedChild p = Some child)"

definition setSelectable ::
  "nat \<Rightarrow> bool \<Rightarrow> node_ref option \<Rightarrow> node_ref \<Rightarrow> ('t, 'z) store
    \<Rightarrow> (fault + (('t, 'z) store \<times> trace)) option" where
  "setSelectable fuel v parent this s =
    (case s this of
       None \<Rightarrow> Some (Inl DanglingPointer)
     | Some f \<Rightarrow>
         if isSelectable f \<noteq> v
         then (let s1 = s(this \<mapsto> f\<lparr>isSelectable := v\<rparr>)
               in if v
                  then (case parent of
                          None \<Rightarrow> Some (Inl NullDereference)
                        | Some p \<Rightarrow>
                            (case s1 p of
                               None \<Rightarrow> Some (Inl DanglingPointer)
                             | Some pf \<Rightarrow>
                                 if checkChildSelected pf this
                                 then Some (Inr (s1, [(this, OnMouseEntered)]))
                                 else onMouseLeft fuel s1 this))
                  else onMouseLeft fuel s1 this)
         else Some (Inr (s, [])))"

text \<open>
  The chain of selected children below a node: the nodes that the \<open>selectedChild\<close>
  pointers lead through, down to a live node whose pointer is null. \<open>unselect\<close>
  sets the pointers of the given nodes to null.
\<close>

inductive selectedChain :: "('t, 'z) store \<Rightarrow> node_ref \<Rightarrow> node_ref list \<Rightarrow> bool" where
  chain_end: "s n = Some f \<Longrightarrow> selectedChild f = None \<Longrightarrow> selectedChain s n []"
| chain_step: "s n = Some f \<Longrightarrow> selectedChild f = Some c \<Longrightarrow> selectedChain s c cs
    \<Longrightarrow> selectedChain s n (c # cs)"

definition unselect :: "node_ref list \<Rightarrow> ('t, 'z) store \<Rightarrow> ('t, 'z) store" where
  "unselect ns s =
    (\<lambda>x. if x \<in> set ns then map_option (\<lambda>g. g\<lparr>selectedChild := None\<rparr>) (s x) else s x)"

text \<open>
  A store for evaluation: the node 1 holds the node 2, which has selected the node 3,
  a child that it has given up since, which in turn has selected its child 4.
\<close>

definition item :: "node_ref \<Rightarrow> bool \<Rightarrow> node_ref option \<Rightarrow> int AbstractNode" where
  "item r sel c = \<lparr>nid = r, isSelectable = sel, isTransformed = False, combinedTransform = 0,
      transform = 0,
      rect = \<lparr>rect_left = 0, rect_top = 0, rect_width = 10, rect_height = 10\<rparr>,
      selectedChild = c, asAct = None\<rparr>"

definition store0 :: "(int, unit) store" where
  "store0 = [1 \<mapsto> item 1 True None, 2 \<mapsto> item 2 False (Some 3), 3 \<mapsto> item 3 True (Some 4),
             4 \<mapsto> item 4 True None]"

text \<open>A store in which the node 1 has selected its child 2, which is not selectable.\<close>

definition store1 :: "(int, unit) store" where
  "store1 = [1 \<mapsto> item 1 True (Some 2), 2 \<mapsto> item 2 False None]"

text \<open>Nodes for evaluation: leaves, in a parent that has selected none of them.\<close>

definition leaf :: "node_ref \<Rightarrow> bool \<Rightarrow> FloatRect \<Rightarrow> int node" where
  "leaf r s box = Node \<lparr>nid = r, isSelectable = s, isTransformed = False, combinedTransform = 0,
      transform = 0, rect = box, selectedChild = None, asAct = None\<rparr> []"

definition box0 :: FloatRect where
  "box0 = \<lparr>rect_left = 0, rect_top = 0, rect_width = 10, rect_height = 10\<rparr>"

definition parent0 :: "int AbstractNode" where
  "parent0 = \<lparr>nid = 1, isSelectable = True, isTransformed = False, combinedTransform = 0,
      transform = 0, rect = box0, selectedChild = None, asAct = None\<rparr>"

definition twoLeaves :: "int node" where
  "twoLeaves = Node parent0 [leaf 2 True box0, leaf 3 True box0]"


text \<open>
  The node at a path below \<open>n\<close> (the indices of the children to descend into), with
  its ancestors: those inside \<open>n\<close>, then \<open>anc\<close>, the ancestors of \<open>n\<close>.
\<close>

fun chainAt :: "'t AbstractNode list \<Rightarrow> 't node \<Rightarrow> nat list
    \<Rightarrow> ('t AbstractNode \<times> 't AbstractNode list) option" where
  "chainAt anc n [] = Some (fields n, anc)"
| "chainAt anc n (i # p) =
    (if i < length (children n) then chainAt (fields n # anc) (children n ! i) p else None)"




text \<open>
  The transform that maps a node to the window, from the local transforms as they are
  now; and the validity of the caches: a cached combined transform whose flag is
  clear is that transform.
\<close>

fun worldTransform :: "('t \<Rightarrow> 't \<Rightarrow> 't) \<Rightarrow> 't AbstractNode \<Rightarrow> 't AbstractNode list \<Rightarrow> 't" where
  "worldTransform compose f [] =
    (case asAct f of Some (mockTransform, w) \<Rightarrow> mockTransform | None \<Rightarrow> transform f)"
| "worldTransform compose f (p # anc) =
    (case asAct f of
       Some (mockTransform, w) \<Rightarrow> mockTransform
     | None \<Rightarrow> compose (worldTransform compose p anc) (transform f))"

definition cacheValid :: "('t \<Rightarrow> 't \<Rightarrow> 't) \<Rightarrow> 't AbstractNode \<Rightarrow> 't AbstractNode list \<Rightarrow> bool" where
  "cacheValid compose f anc =
    (asAct f = None \<and> \<not> isTransformed f \<longrightarrow> combinedTransform f = worldTransform compose f anc)"


fun treeValid :: "('t \<Rightarrow> 't \<Rightarrow> 't) \<Rightarrow> 't AbstractNode list \<Rightarrow> 't node \<Rightarrow> bool" where
  "treeValid compose anc (Node f cs) =
    (cacheValid compose f anc \<and> list_all (treeValid compose (f # anc)) cs)"

text \<open>What the transform of a node to the window depends on: the fields that the caching leaves alone.\<close>

definition tkey :: "'t AbstractNode \<Rightarrow> 't \<times> ('t \<times> Window) option" where
  "tkey f = (transform f, asAct f)"










text \<open>
  What \<open>deselectChild\<close> and \<open>getCombinedTransform\<close> leave alone in a node, and the
  stores that agree on it.
\<close>

definition nkey ::
  "'t Obj \<Rightarrow> node_ref \<times> bool \<times> 't \<times> FloatRect \<times> ('t \<times> Window) option \<times> node_ref option \<times> node_ref list" where
  "nkey g = (nid g, isSelectable g, transform g, rect g, asAct g, getParent g, getChildren g)"








section \<open>Act: pointer moves\<close>

lemma onMouseMoved_saved_movable:
  assumes "contentMode a = MOVABLE_BY_MOUSE" and "onMouseMoved selectNode p a = Inr a'"
  shows "savedMousePosition a' = p"
  using assms
  by (auto simp: onMouseMoved_def call_def Let_def split: option.splits if_splits)

lemma onMouseMoved_other_modes:
  assumes "contentMode a \<noteq> MOVABLE_BY_MOUSE"
  shows "\<exists>a'. onMouseMoved selectNode p a = Inr a' \<and> savedMousePosition a' = savedMousePosition a"
  using assms
  by (auto simp: onMouseMoved_def call_def Let_def split: option.splits)

lemma onMouseMoved_movable_returns:
  assumes "contentMode a = MOVABLE_BY_MOUSE"
    and "isRightMouseButtonPressed a \<longrightarrow> content a \<noteq> None"
  shows "\<exists>a'. onMouseMoved selectNode p a = Inr a'"
  using assms
  by (auto simp: onMouseMoved_def call_def Let_def split: option.splits)

text \<open>
  C8, as the code has it: \<open>Act::onMouseMoved\<close> stores the pointer position only inside
  its \<open>MOVABLE_BY_MOUSE\<close> branch. In that mode the call returns (when a drag is under
  way, provided the content pointer is set) and the saved position is then the
  argument; in the two other modes the call returns and leaves the saved position as
  it was.
\<close>

theorem onMouseMoved_records_position:
  "(contentMode a = MOVABLE_BY_MOUSE \<and> (isRightMouseButtonPressed a \<longrightarrow> content a \<noteq> None) \<longrightarrow>
      (\<exists>a'. onMouseMoved selectNode p a = Inr a' \<and> savedMousePosition a' = p))
   \<and> (contentMode a \<noteq> MOVABLE_BY_MOUSE \<longrightarrow>
      (\<exists>a'. onMouseMoved selectNode p a = Inr a' \<and> savedMousePosition a' = savedMousePosition a))"
  using onMouseMoved_saved_movable [of a selectNode p] onMouseMoved_movable_returns [of a selectNode p]
    onMouseMoved_other_modes [of a selectNode p]
  by blast

theorem onMouseMoved_records_position_witness:
  "(\<exists>a'. onMouseMoved (\<lambda>_. None) (5, 7) (act0 MOVABLE_BY_MOUSE) = Inr a'
         \<and> savedMousePosition a' = (5, 7))
   \<and> (\<exists>a'. onMouseMoved (\<lambda>_. None) (5, 7) (act0 CENTERED_ON_NODE) = Inr a'
         \<and> savedMousePosition a' = (0, 0))"
  using onMouseMoved_records_position [of "act0 MOVABLE_BY_MOUSE" "\<lambda>_. None" "(5, 7)"]
    onMouseMoved_records_position [of "act0 CENTERED_ON_NODE" "\<lambda>_. None" "(5, 7)"]
  by (simp add: act0_def)

text \<open>
  C8 as stated fails: in \<open>STATIC\<close> mode a move to (5, 7) leaves the saved position
  at (0, 0).
\<close>

theorem onMouseMoved_static_keeps_position:
  "onMouseMoved (\<lambda>_. None) (5, 7) (act0 STATIC) = Inr (act0 STATIC)
   \<and> savedMousePosition (act0 STATIC) \<noteq> (5, 7)"
  by (simp add: onMouseMoved_def act0_def)

section \<open>Act: the drag threshold\<close>

lemma onMouseMoved_drag_step:
  assumes "contentMode a = MOVABLE_BY_MOUSE" and "isRightMouseButtonPressed a"
    and "content a \<noteq> None"
  shows "\<exists>a'. onMouseMoved selectNode p a = Inr a'
      \<and> contentMode a' = MOVABLE_BY_MOUSE \<and> isRightMouseButtonPressed a' \<and> content a' \<noteq> None
      \<and> savedMousePosition a' = p
      \<and> (isMouseMovedWithRightButton a' \<longleftrightarrow>
           isMouseMovedWithRightButton a
           \<or> 10 < manhattan (int32 (fst p - fst (savedMousePosition a)),
                              int32 (snd p - snd (savedMousePosition a))))"
  using assms
  by (auto simp: onMouseMoved_def call_def manhattan_def Let_def split: option.splits)

lemma onMouseMoved_all_drag:
  assumes "contentMode a = MOVABLE_BY_MOUSE" and "isRightMouseButtonPressed a"
    and "content a \<noteq> None"
  shows "\<exists>a'. onMouseMoved_all selectNode ps a = Inr a'
      \<and> (isMouseMovedWithRightButton a' \<longleftrightarrow>
           isMouseMovedWithRightButton a
           \<or> (\<exists>d \<in> set (stepOffsets (savedMousePosition a) ps). 10 < manhattan d))"
  using assms
proof (induction ps arbitrary: a)
  case Nil
  then show ?case by simp
next
  case (Cons p ps)
  from onMouseMoved_drag_step [OF Cons.prems, of selectNode p]
  obtain a1 where step: "onMouseMoved selectNode p a = Inr a1"
    and inv: "contentMode a1 = MOVABLE_BY_MOUSE" "isRightMouseButtonPressed a1" "content a1 \<noteq> None"
    and saved: "savedMousePosition a1 = p"
    and flag: "isMouseMovedWithRightButton a1 \<longleftrightarrow>
           isMouseMovedWithRightButton a
           \<or> 10 < manhattan (int32 (fst p - fst (savedMousePosition a)),
                              int32 (snd p - snd (savedMousePosition a)))"
    by blast
  from Cons.IH [OF inv] obtain a' where run: "onMouseMoved_all selectNode ps a1 = Inr a'"
    and flag': "isMouseMovedWithRightButton a' \<longleftrightarrow>
           isMouseMovedWithRightButton a1
           \<or> (\<exists>d \<in> set (stepOffsets (savedMousePosition a1) ps). 10 < manhattan d)"
    by blast
  have "onMouseMoved_all selectNode (p # ps) a = Inr a'"
    using step run by simp
  moreover have "isMouseMovedWithRightButton a' \<longleftrightarrow>
           isMouseMovedWithRightButton a
           \<or> (\<exists>d \<in> set (stepOffsets (savedMousePosition a) (p # ps)). 10 < manhattan d)"
    using flag flag' saved by auto
  ultimately show ?case by blast
qed

lemma onRightMouseButtonReleased_calls:
  assumes "selectedNode a = Some n" and "checkSelectable n"
  shows "calls (onRightMouseButtonReleased checkSelectable a) =
    (if isMouseMovedWithRightButton a then calls a
     else calls a @ [(n, OnRightMouseButtonReleased)])"
  using assms by (simp add: onRightMouseButtonReleased_def call_def)

lemma int32_in_range:
  "- (2 ^ 31) \<le> k \<Longrightarrow> k < 2 ^ 31 \<Longrightarrow> int32 k = k"
  by (simp add: int32_def sint_sbintrunc' signed_take_bit_int_eq_self)

lemma manhattan_in_range:
  assumes "\<bar>fst p - fst q\<bar> + \<bar>snd p - snd q\<bar> < 2 ^ 31"
  shows "stepOffsets q [p] = [(fst p - fst q, snd p - snd q)]"
    and "manhattan (fst p - fst q, snd p - snd q) = \<bar>fst p - fst q\<bar> + \<bar>snd p - snd q\<bar>"
proof -
  have x: "int32 (fst p - fst q) = fst p - fst q" and y: "int32 (snd p - snd q) = snd p - snd q"
    and ax: "int32 \<bar>fst p - fst q\<bar> = \<bar>fst p - fst q\<bar>"
    and ay: "int32 \<bar>snd p - snd q\<bar> = \<bar>snd p - snd q\<bar>"
    and m: "int32 (\<bar>fst p - fst q\<bar> + \<bar>snd p - snd q\<bar>) = \<bar>fst p - fst q\<bar> + \<bar>snd p - snd q\<bar>"
    using assms by (intro int32_in_range; linarith)+
  show "stepOffsets q [p] = [(fst p - fst q, snd p - snd q)]"
    using x y by simp
  show "manhattan (fst p - fst q, snd p - snd q) = \<bar>fst p - fst q\<bar> + \<bar>snd p - snd q\<bar>"
    using ax ay m by (simp add: manhattan_def)
qed

text \<open>
  C4, as the code has it. \<open>Act::onMouseMoved\<close> measures each move against the position
  saved by the move before it, so the threshold is per step: after a right-button
  press in \<open>MOVABLE_BY_MOUSE\<close> mode (content set), a run of moves returns, and the
  drag-moved flag is set iff some single step has a Manhattan offset above 10, the
  offset and its length being computed in 32-bit \<open>int\<close>. The release then forwards the
  click to a selected, selectable node iff the flag is clear. For a step whose true
  Manhattan length is below \<open>2 ^ 31\<close>, as all steps between window coordinates are,
  the computed offset and length are the true ones; beyond that they are not: the
  length of the step from \<open>(0, 0)\<close> to \<open>(2147483647, 2147483647)\<close> is computed as
  \<open>- 2\<close>, and the flag stays clear.
\<close>

theorem drag_threshold_per_step:
  assumes "contentMode a = MOVABLE_BY_MOUSE" and "content a \<noteq> None"
  shows "(\<exists>a'. onMouseMoved_all selectNode ps (onRightMouseButtonPressed a) = Inr a'
      \<and> (isMouseMovedWithRightButton a' \<longleftrightarrow>
           (\<exists>d \<in> set (stepOffsets (savedMousePosition a) ps). 10 < manhattan d))
      \<and> (\<forall>n. selectedNode a' = Some n \<and> checkSelectable n \<longrightarrow>
           calls (onRightMouseButtonReleased checkSelectable a') =
             (if \<exists>d \<in> set (stepOffsets (savedMousePosition a) ps). 10 < manhattan d
              then calls a'
              else calls a' @ [(n, OnRightMouseButtonReleased)])))
    \<and> (\<bar>fst p - fst q\<bar> + \<bar>snd p - snd q\<bar> < 2 ^ 31 \<longrightarrow>
          stepOffsets q [p] = [(fst p - fst q, snd p - snd q)]
          \<and> manhattan (fst p - fst q, snd p - snd q) = \<bar>fst p - fst q\<bar> + \<bar>snd p - snd q\<bar>)"
proof -
  let ?b = "onRightMouseButtonPressed a"
  have b: "contentMode ?b = MOVABLE_BY_MOUSE" "isRightMouseButtonPressed ?b" "content ?b \<noteq> None"
    "\<not> isMouseMovedWithRightButton ?b" "savedMousePosition ?b = savedMousePosition a"
    using assms by (simp_all add: onRightMouseButtonPressed_def)
  from onMouseMoved_all_drag [OF b(1-3), of selectNode ps]
  obtain a' where run: "onMouseMoved_all selectNode ps ?b = Inr a'"
    and flag: "isMouseMovedWithRightButton a' \<longleftrightarrow>
           (\<exists>d \<in> set (stepOffsets (savedMousePosition a) ps). 10 < manhattan d)"
    using b(4,5) by auto
  have first: "\<exists>a'. onMouseMoved_all selectNode ps (onRightMouseButtonPressed a) = Inr a'
      \<and> (isMouseMovedWithRightButton a' \<longleftrightarrow>
           (\<exists>d \<in> set (stepOffsets (savedMousePosition a) ps). 10 < manhattan d))
      \<and> (\<forall>n. selectedNode a' = Some n \<and> checkSelectable n \<longrightarrow>
           calls (onRightMouseButtonReleased checkSelectable a') =
             (if \<exists>d \<in> set (stepOffsets (savedMousePosition a) ps). 10 < manhattan d
              then calls a'
              else calls a' @ [(n, OnRightMouseButtonReleased)]))"
    using run flag onRightMouseButtonReleased_calls [of a' _ checkSelectable]
    by auto
  from first manhattan_in_range [of p q] show ?thesis by blast
qed

theorem drag_threshold_per_step_witness:
  "(\<exists>a'. onMouseMoved_all (\<lambda>_. Some 1) [(3, 0), (20, 0)]
          (onRightMouseButtonPressed (act0 MOVABLE_BY_MOUSE)) = Inr a'
      \<and> isMouseMovedWithRightButton a')
   \<and> stepOffsets (3, 0) [(20, 0)] = [(17, 0)] \<and> manhattan (17, 0) = 17
   \<and> (\<exists>a'. onMouseMoved_all (\<lambda>_. Some 1) [(2147483647, 2147483647)]
          (onRightMouseButtonPressed (act0 MOVABLE_BY_MOUSE)) = Inr a'
      \<and> \<not> isMouseMovedWithRightButton a')
   \<and> manhattan (2147483647, 2147483647) = - 2"
proof -
  have mode: "contentMode (act0 MOVABLE_BY_MOUSE) = MOVABLE_BY_MOUSE"
    and cont: "content (act0 MOVABLE_BY_MOUSE) \<noteq> None"
    by (simp_all add: act0_def)
  note T = drag_threshold_per_step [OF mode cont, of "\<lambda>_. Some 1" "[(3, 0), (20, 0)]" "\<lambda>_. True"
      "(20, 0)" "(3, 0)"]
  from T have ex: "stepOffsets (3, 0) [(20, 0)] = [(17, 0)]" "manhattan (17, 0) = 17"
    by simp_all
  have small: "int32 3 = 3"
    by (rule int32_in_range) simp_all
  have big: "\<exists>d \<in> set (stepOffsets (savedMousePosition (act0 MOVABLE_BY_MOUSE)) [(3, 0), (20, 0)]).
      10 < manhattan d"
    using ex small by (simp add: act0_def)
  from T obtain a' where r: "onMouseMoved_all (\<lambda>_. Some 1) [(3, 0), (20, 0)]
          (onRightMouseButtonPressed (act0 MOVABLE_BY_MOUSE)) = Inr a'"
    and f: "isMouseMovedWithRightButton a' \<longleftrightarrow>
          (\<exists>d \<in> set (stepOffsets (savedMousePosition (act0 MOVABLE_BY_MOUSE)) [(3, 0), (20, 0)]).
             10 < manhattan d)"
    by blast
  have far: "int32 2147483647 = 2147483647"
    by (rule int32_in_range) simp_all
  have wrap: "manhattan (2147483647, 2147483647) = - 2"
    by (simp add: manhattan_def far) (simp add: int32_def)
  have none: "\<not> (\<exists>d \<in> set (stepOffsets (savedMousePosition (act0 MOVABLE_BY_MOUSE))
      [(2147483647, 2147483647)]). 10 < manhattan d)"
    using wrap far by (simp add: act0_def)
  from drag_threshold_per_step [OF mode cont, of "\<lambda>_. Some 1" "[(2147483647, 2147483647)]"
      "\<lambda>_. True" "(20, 0)" "(3, 0)"]
  obtain b' where r2: "onMouseMoved_all (\<lambda>_. Some 1) [(2147483647, 2147483647)]
          (onRightMouseButtonPressed (act0 MOVABLE_BY_MOUSE)) = Inr b'"
    and f2: "isMouseMovedWithRightButton b' \<longleftrightarrow>
          (\<exists>d \<in> set (stepOffsets (savedMousePosition (act0 MOVABLE_BY_MOUSE))
             [(2147483647, 2147483647)]). 10 < manhattan d)"
    by blast
  from r f big have one: "\<exists>a'. onMouseMoved_all (\<lambda>_. Some 1) [(3, 0), (20, 0)]
          (onRightMouseButtonPressed (act0 MOVABLE_BY_MOUSE)) = Inr a'
      \<and> isMouseMovedWithRightButton a'" by blast
  from r2 f2 none have two: "\<exists>a'. onMouseMoved_all (\<lambda>_. Some 1) [(2147483647, 2147483647)]
          (onRightMouseButtonPressed (act0 MOVABLE_BY_MOUSE)) = Inr a'
      \<and> \<not> isMouseMovedWithRightButton a'" by blast
  from one two ex wrap show ?thesis by blast
qed

text \<open>
  C4 as stated fails: two steps of 6 make a drag of cumulative Manhattan offset 12
  (whether summed over the steps or measured from the start to the end), yet the flag
  stays clear and the release click reaches the selected node.
\<close>

theorem drag_cumulative_counterexample:
  "\<exists>a'. onMouseMoved_all (\<lambda>_. Some 1) [(6, 0), (12, 0)]
          (onRightMouseButtonPressed (act0 MOVABLE_BY_MOUSE)) = Inr a'
      \<and> \<not> isMouseMovedWithRightButton a'
      \<and> last (calls (onRightMouseButtonReleased (\<lambda>_. True) a')) = (1, OnRightMouseButtonReleased)
      \<and> 10 < manhattan (12 - 0, 0 - 0)
      \<and> 10 < sum_list (map manhattan (stepOffsets (0, 0) [(6, 0), (12, 0)]))"
proof -
  have i: "int32 0 = 0" "int32 6 = 6" "int32 12 = 12"
    by (rule int32_in_range; simp)+
  show ?thesis
    by (simp add: onMouseMoved_def onRightMouseButtonPressed_def onRightMouseButtonReleased_def
        act0_def call_def manhattan_def Let_def i)
qed

section \<open>Act: edge scrolling\<close>

lemma uint_negative: 
  assumes "- (2 ^ 31) \<le> x" and "x < 0"
  shows "uint (word_of_int x :: 32 word) = x + 2 ^ 32"
proof -
  have "(x + 2 ^ 32) mod 2 ^ 32 = x + 2 ^ 32"
    using assms by (intro mod_pos_pos_trivial) auto
  then have "x mod 2 ^ 32 = x + 2 ^ 32"
    by simp
  then show ?thesis by (simp add: uint_word_of_int)
qed

lemma activeArea_bound: "uint (activeArea indent) < 2 ^ 31"
proof -
  have "uint indent < 2 ^ 32" using uint_bounded [of indent] by simp
  then have "uint indent div 2 < 2 ^ 31" by simp
  then show ?thesis by (simp add: activeArea_def uint_div)
qed

lemma negative_coordinate_not_near_start:
  assumes "- (2 ^ 31) \<le> x" and "x < 0"
  shows "edgeBranch (word_of_int x) extent (activeArea indent) \<noteq> NearStart
    \<and> x < uint (activeArea indent)"
proof -
  have "\<not> (word_of_int x :: 32 word) < activeArea indent"
    using uint_negative [OF assms] activeArea_bound [of indent] assms
    by (simp add: word_less_def)
  moreover have "x < uint (activeArea indent)"
    using assms(2) uint_ge_0 [of "activeArea indent"] by linarith
  ultimately show ?thesis by (simp add: edgeBranch_def)
qed


lemma edgeOffset_not_start:
  "e \<noteq> NearStart \<Longrightarrow> edgeOffset e speed = 0 \<or> edgeOffset e speed = toInt (0 - speed)"
  by (cases e) (simp_all add: edgeOffset_def)

text \<open>
  C10: in \<open>MOVABLE_BY_MOUSE\<close> mode \<open>Act::update\<close> returns, and a saved coordinate that
  is negative (as a 32-bit \<open>int\<close>) is below the margin as a number, yet after its
  conversion to \<open>unsigned int\<close> the comparison with the margin fails: the branch of the
  left (top) edge is not taken, and the content layer stays or moves by the negative
  offset on that axis.
\<close>

theorem Act_update_negative_coordinate:
  assumes "contentMode a = MOVABLE_BY_MOUSE"
  shows "\<exists>a'. Act_update indent speed centre a = Inr a'
    \<and> (- (2 ^ 31) \<le> fst (savedMousePosition a) \<and> fst (savedMousePosition a) < 0 \<longrightarrow>
         fst (savedMousePosition a) < uint (activeArea indent)
         \<and> edgeBranch (word_of_int (fst (savedMousePosition a))) (fst (windowSize a))
              (activeArea indent) \<noteq> NearStart
         \<and> (fst (position (contentLayer a')) = fst (position (contentLayer a))
            \<or> fst (position (contentLayer a')) =
                fst (position (contentLayer a)) + real_of_int (toInt (0 - speed))))
    \<and> (- (2 ^ 31) \<le> snd (savedMousePosition a) \<and> snd (savedMousePosition a) < 0 \<longrightarrow>
         snd (savedMousePosition a) < uint (activeArea indent)
         \<and> edgeBranch (word_of_int (snd (savedMousePosition a))) (snd (windowSize a))
              (activeArea indent) \<noteq> NearStart
         \<and> (snd (position (contentLayer a')) = snd (position (contentLayer a))
            \<or> snd (position (contentLayer a')) =
                snd (position (contentLayer a)) + real_of_int (toInt (0 - speed))))"
proof -
  let ?bx = "edgeBranch (word_of_int (fst (savedMousePosition a))) (fst (windowSize a)) (activeArea indent)"
  let ?by = "edgeBranch (word_of_int (snd (savedMousePosition a))) (snd (windowSize a)) (activeArea indent)"
  let ?a' = "a\<lparr>contentLayer := move (real_of_int (edgeOffset ?bx speed))
                    (real_of_int (edgeOffset ?by speed)) (contentLayer a)\<rparr>"
  have run: "Act_update indent speed centre a = Inr ?a'"
    using assms by (simp add: Act_update_def Let_def)
  have px: "fst (position (contentLayer ?a')) =
      fst (position (contentLayer a)) + real_of_int (edgeOffset ?bx speed)"
    and py: "snd (position (contentLayer ?a')) =
      snd (position (contentLayer a)) + real_of_int (edgeOffset ?by speed)"
    by (simp_all add: move_def)
  have x: "fst (savedMousePosition a) < uint (activeArea indent) \<and> ?bx \<noteq> NearStart
      \<and> (fst (position (contentLayer ?a')) = fst (position (contentLayer a))
         \<or> fst (position (contentLayer ?a')) =
              fst (position (contentLayer a)) + real_of_int (toInt (0 - speed)))"
    if "- (2 ^ 31) \<le> fst (savedMousePosition a)" "fst (savedMousePosition a) < 0"
    using negative_coordinate_not_near_start [OF that, of "fst (windowSize a)" indent]
      edgeOffset_not_start [of ?bx speed] px
    by auto
  have y: "snd (savedMousePosition a) < uint (activeArea indent) \<and> ?by \<noteq> NearStart
      \<and> (snd (position (contentLayer ?a')) = snd (position (contentLayer a))
         \<or> snd (position (contentLayer ?a')) =
              snd (position (contentLayer a)) + real_of_int (toInt (0 - speed)))"
    if "- (2 ^ 31) \<le> snd (savedMousePosition a)" "snd (savedMousePosition a) < 0"
    using negative_coordinate_not_near_start [OF that, of "snd (windowSize a)" indent]
      edgeOffset_not_start [of ?by speed] py
    by auto
  show ?thesis using run x y by blast
qed

theorem Act_update_negative_coordinate_witness:
  "\<exists>a'. Act_update 20 3 None actNeg = Inr a'
     \<and> edgeBranch (word_of_int (- 1)) 800 (activeArea 20) \<noteq> NearStart
     \<and> edgeBranch (word_of_int (- 3)) 600 (activeArea 20) \<noteq> NearStart
     \<and> position (contentLayer a') = (- 3, - 3)"
proof -
  have m: "contentMode actNeg = MOVABLE_BY_MOUSE"
    by (simp add: actNeg_def act0_def)
  from Act_update_negative_coordinate [OF m, of 20 3 None]
  obtain a' where run: "Act_update 20 3 None actNeg = Inr a'"
    and bx: "edgeBranch (word_of_int (- 1)) 800 (activeArea 20) \<noteq> NearStart"
    and "edgeBranch (word_of_int (- 3)) 600 (activeArea 20) \<noteq> NearStart"
    by (auto simp: actNeg_def act0_def)
  moreover have "position (contentLayer a') = (- 3, - 3)"
    using run
    by (auto simp: Act_update_def actNeg_def act0_def tnode0_def move_def edgeBranch_def
        activeArea_def edgeOffset_def toInt_def Let_def)
  ultimately show ?thesis by blast
qed


section \<open>Stage: the event drain\<close>

lemma pollEvents_append: "pollEvents (xs @ ys) s = pollEvents ys (pollEvents xs s)"
  by (induction xs arbitrary: s) auto






section \<open>Act: layout\<close>

lemma setUpNodes_slots:
  "leftUi (setUpNodes resizeUi K a0) = map_option (setY (fullTopIndent (resizeUi a0))) (leftUi (resizeUi a0))"
  "rightUi (setUpNodes resizeUi K a0) =
     map_option (\<lambda>r. setPos (windowWidth (resizeUi a0) - width r) (fullTopIndent (resizeUi a0)) r)
       (rightUi (resizeUi a0))"
  "topUi (setUpNodes resizeUi K a0) = map_option (setX (fullLeftIndent (resizeUi a0))) (topUi (resizeUi a0))"
  "bottomUi (setUpNodes resizeUi K a0) =
     map_option (\<lambda>b. setPos (fullLeftIndent (resizeUi a0)) (windowHeight (resizeUi a0) - height b) b)
       (bottomUi (resizeUi a0))"
  by (simp_all add: setUpNodes_def Let_def windowWidth_def windowHeight_def)

lemma freeWidth_repositioned:
  "freeWidth (a\<lparr>leftUi := map_option (setY t) (leftUi a),
       rightUi := map_option (\<lambda>r. setPos (f r) y r) (rightUi a)\<rparr>) = freeWidth a"
  by (simp add: freeWidth_def Let_def fullLeftIndent_def windowWidth_def setY_def setPos_def
      split: option.splits)

lemma freeHeight_repositioned:
  "freeHeight (a\<lparr>leftUi := l, rightUi := r, topUi := map_option (setX t) (topUi a),
       bottomUi := map_option (\<lambda>b. setPos x (f b) b) (bottomUi a)\<rparr>) = freeHeight a"
  by (simp add: freeHeight_def Let_def fullTopIndent_def windowHeight_def setX_def setPos_def
      split: option.splits)

lemma setUpNodes_contentLayer_static:
  assumes "contentMode (resizeUi a0) = STATIC"
  shows "contentLayer (setUpNodes resizeUi K a0) =
    (let a = resizeUi a0; cl = contentLayer a;
         cl1 = setScale (fmin (fdiv (freeWidth a) (width cl)) (fdiv (freeHeight a) (height cl))) cl;
         cl2 = setOrigin (halfX cl1) (halfY cl1) cl1
     in setPos (fullLeftIndent a + freeWidth a / 2) (fullTopIndent a + freeHeight a / 2) cl2)"
  using assms
  by (simp add: setUpNodes_def Let_def freeWidth_repositioned freeHeight_repositioned)

lemma fmin_fdiv_finite:
  "b \<noteq> 0 \<Longrightarrow> d \<noteq> 0 \<Longrightarrow> fmin (fdiv a b) (fdiv c d) = Finite (min (a / b) (c / d))"
  by (auto simp: fmin_def fdiv_def min_def)

lemma fmin_fdiv_zero_width:
  "0 < a \<Longrightarrow> d \<noteq> 0 \<Longrightarrow> fmin (fdiv a 0) (fdiv c d) = Finite (c / d)"
  by (simp add: fmin_def fdiv_def)

text \<open>
  C5: in \<open>STATIC\<close> mode \<open>setUpNodes\<close> sets the scale of the content layer to the
  smaller (\<open>std::min\<close>) of the \<open>float\<close> quotients free width over content width and
  free height over content height, its origin to (\<open>getHalfX()\<close>, \<open>getHalfY()\<close>), its
  own centre, and its position to the centre of the free rectangle; the free
  rectangle starts at (left indent, top indent), and its width is the window width
  minus the width of the left UI minus the width of the right UI (0 for an absent UI),
  its height likewise. For a content layer of non-zero width and height the scale is
  the smaller of the two finite quotients; for one of width 0 in a free rectangle of
  positive width, where the first quotient is infinite, it is the second quotient.
\<close>

theorem setUpNodes_static_layout:
  assumes "contentMode (resizeUi a0) = STATIC"
  shows "(let a = resizeUi a0;
             left = (case leftUi a of Some l \<Rightarrow> width l | None \<Rightarrow> 0);
             top = (case topUi a of Some t \<Rightarrow> height t | None \<Rightarrow> 0);
             fw = real (unat (fst (windowSize a))) - left
                    - (case rightUi a of Some r \<Rightarrow> width r | None \<Rightarrow> 0);
             fh = real (unat (snd (windowSize a))) - top
                    - (case bottomUi a of Some b \<Rightarrow> height b | None \<Rightarrow> 0);
             cl = contentLayer a;
             cl' = contentLayer (setUpNodes resizeUi K a0)
         in scale cl' = fmin (fdiv fw (width cl)) (fdiv fh (height cl))
            \<and> (width cl \<noteq> 0 \<and> height cl \<noteq> 0 \<longrightarrow>
                 scale cl' = Finite (min (fw / width cl) (fh / height cl)))
            \<and> (width cl = 0 \<and> 0 < fw \<and> height cl \<noteq> 0 \<longrightarrow> scale cl' = Finite (fh / height cl))
            \<and> origin cl' = (halfX cl, halfY cl)
            \<and> position cl' = (left + fw / 2, top + fh / 2))"
proof -
  let ?a = "resizeUi a0"
  let ?cl = "contentLayer ?a"
  have fw: "freeWidth ?a = real (unat (fst (windowSize ?a)))
      - (case leftUi ?a of Some l \<Rightarrow> width l | None \<Rightarrow> 0)
      - (case rightUi ?a of Some r \<Rightarrow> width r | None \<Rightarrow> 0)"
    by (simp add: freeWidth_def fullLeftIndent_def windowWidth_def Let_def split: option.splits)
  have fh: "freeHeight ?a = real (unat (snd (windowSize ?a)))
      - (case topUi ?a of Some t \<Rightarrow> height t | None \<Rightarrow> 0)
      - (case bottomUi ?a of Some b \<Rightarrow> height b | None \<Rightarrow> 0)"
    by (simp add: freeHeight_def fullTopIndent_def windowHeight_def Let_def split: option.splits)
  have layer: "scale (contentLayer (setUpNodes resizeUi K a0)) =
        fmin (fdiv (freeWidth ?a) (width ?cl)) (fdiv (freeHeight ?a) (height ?cl))"
    "origin (contentLayer (setUpNodes resizeUi K a0)) = (halfX ?cl, halfY ?cl)"
    "position (contentLayer (setUpNodes resizeUi K a0)) =
        (fullLeftIndent ?a + freeWidth ?a / 2, fullTopIndent ?a + freeHeight ?a / 2)"
    using setUpNodes_contentLayer_static [of resizeUi a0 K] assms
    by (simp_all add: Let_def setPos_def setOrigin_def setScale_def)
  have fin: "width ?cl \<noteq> 0 \<and> height ?cl \<noteq> 0 \<longrightarrow>
      scale (contentLayer (setUpNodes resizeUi K a0)) =
        Finite (min (freeWidth ?a / width ?cl) (freeHeight ?a / height ?cl))"
    using layer(1) fmin_fdiv_finite by simp
  have zero: "width ?cl = 0 \<and> 0 < freeWidth ?a \<and> height ?cl \<noteq> 0 \<longrightarrow>
      scale (contentLayer (setUpNodes resizeUi K a0)) = Finite (freeHeight ?a / height ?cl)"
    using layer(1) fmin_fdiv_zero_width by simp
  show ?thesis
    unfolding Let_def
    using layer fin zero
    unfolding fw fh fullLeftIndent_def fullTopIndent_def
    by simp
qed

theorem setUpNodes_static_layout_witness:
  "scale (contentLayer (setUpNodes (\<lambda>a. a) 1 actStaticDocked)) = Finite (1 / 2)
   \<and> origin (contentLayer (setUpNodes (\<lambda>a. a) 1 actStaticDocked)) = (100, 50)
   \<and> position (contentLayer (setUpNodes (\<lambda>a. a) 1 actStaticDocked)) = (100, 90)
   \<and> scale (contentLayer (setUpNodes (\<lambda>a. a) 1 actStatic)) = Finite (1 / 2)
   \<and> position (contentLayer (setUpNodes (\<lambda>a. a) 1 actStatic)) = (50, 50)
   \<and> scale (contentLayer (setUpNodes (\<lambda>a. a) 1 actEmpty)) = Finite 1
   \<and> position (contentLayer (setUpNodes (\<lambda>a. a) 1 actEmpty)) = (50, 50)"
proof -
  have docked: "contentMode actStaticDocked = STATIC" "windowSize actStaticDocked = (200, 200)"
    "leftUi actStaticDocked = Some (tnode0\<lparr>width := 50, height := 100\<rparr>)"
    "rightUi actStaticDocked = Some (tnode0\<lparr>width := 50, height := 100\<rparr>)"
    "topUi actStaticDocked = Some (tnode0\<lparr>width := 200, height := 40\<rparr>)"
    "bottomUi actStaticDocked = Some (tnode0\<lparr>width := 200, height := 60\<rparr>)"
    "contentLayer actStaticDocked = tnode0\<lparr>width := 200, height := 100, halfX := 100, halfY := 50\<rparr>"
    by (simp_all add: actStaticDocked_def act0_def)
  have free: "contentMode actStatic = STATIC" "windowSize actStatic = (100, 100)"
    "leftUi actStatic = None" "rightUi actStatic = None" "topUi actStatic = None"
    "bottomUi actStatic = None"
    "contentLayer actStatic = tnode0\<lparr>width := 200, height := 100, halfX := 100, halfY := 50\<rparr>"
    by (simp_all add: actStatic_def act0_def)
  have empty: "contentMode actEmpty = STATIC" "windowSize actEmpty = (100, 100)"
    "leftUi actEmpty = None" "rightUi actEmpty = None" "topUi actEmpty = None"
    "bottomUi actEmpty = None"
    "contentLayer actEmpty = tnode0\<lparr>width := 0, height := 100\<rparr>"
    by (simp_all add: actEmpty_def act0_def)
  have d: "scale (contentLayer (setUpNodes (\<lambda>a. a) 1 actStaticDocked)) = Finite (1 / 2)
      \<and> origin (contentLayer (setUpNodes (\<lambda>a. a) 1 actStaticDocked)) = (100, 50)
      \<and> position (contentLayer (setUpNodes (\<lambda>a. a) 1 actStaticDocked)) = (100, 90)"
    using setUpNodes_static_layout [of "\<lambda>a. a" actStaticDocked 1] docked
    by (simp add: Let_def tnode0_def fmin_def fdiv_def)
  have s: "scale (contentLayer (setUpNodes (\<lambda>a. a) 1 actStatic)) = Finite (1 / 2)
      \<and> position (contentLayer (setUpNodes (\<lambda>a. a) 1 actStatic)) = (50, 50)"
    using setUpNodes_static_layout [of "\<lambda>a. a" actStatic 1] free
    by (simp add: Let_def tnode0_def fmin_def fdiv_def)
  have e: "scale (contentLayer (setUpNodes (\<lambda>a. a) 1 actEmpty)) = Finite 1
      \<and> position (contentLayer (setUpNodes (\<lambda>a. a) 1 actEmpty)) = (50, 50)"
    using setUpNodes_static_layout [of "\<lambda>a. a" actEmpty 1] empty
    by (simp add: Let_def tnode0_def fmin_def fdiv_def)
  from d s e show ?thesis by simp
qed

text \<open>
  C6, as the code has it, for every combination of populated slots: \<open>setUpNodes\<close> sets
  only the y of the left UI (to the top indent) and only the x of the top UI (to the
  left indent), and leaves the other coordinate as it was; it places the right UI at
  (window width - its width, top indent) and the bottom UI at (left indent, window
  height - its height). The free width is the window width minus the left indent
  minus the width of the right UI (0 if absent), the free height likewise, so a left
  UI takes exactly its width from the free width whatever the other slots hold.
\<close>

theorem setUpNodes_docking:
  "leftUi (setUpNodes resizeUi K a0) =
     map_option (\<lambda>l. l\<lparr>position := (fst (position l), fullTopIndent (resizeUi a0))\<rparr>)
       (leftUi (resizeUi a0))
   \<and> rightUi (setUpNodes resizeUi K a0) =
     map_option (\<lambda>r. r\<lparr>position := (windowWidth (resizeUi a0) - width r, fullTopIndent (resizeUi a0))\<rparr>)
       (rightUi (resizeUi a0))
   \<and> topUi (setUpNodes resizeUi K a0) =
     map_option (\<lambda>t. t\<lparr>position := (fullLeftIndent (resizeUi a0), snd (position t))\<rparr>)
       (topUi (resizeUi a0))
   \<and> bottomUi (setUpNodes resizeUi K a0) =
     map_option (\<lambda>b. b\<lparr>position := (fullLeftIndent (resizeUi a0), windowHeight (resizeUi a0) - height b)\<rparr>)
       (bottomUi (resizeUi a0))
   \<and> freeWidth (resizeUi a0) =
       windowWidth (resizeUi a0) - fullLeftIndent (resizeUi a0)
         - (case rightUi (resizeUi a0) of Some r \<Rightarrow> width r | None \<Rightarrow> 0)
   \<and> freeHeight (resizeUi a0) =
       windowHeight (resizeUi a0) - fullTopIndent (resizeUi a0)
         - (case bottomUi (resizeUi a0) of Some b \<Rightarrow> height b | None \<Rightarrow> 0)
   \<and> fullLeftIndent (resizeUi a0) = (case leftUi (resizeUi a0) of Some l \<Rightarrow> width l | None \<Rightarrow> 0)
   \<and> fullTopIndent (resizeUi a0) = (case topUi (resizeUi a0) of Some t \<Rightarrow> height t | None \<Rightarrow> 0)
   \<and> freeWidth (a\<lparr>leftUi := Some l\<rparr>) = freeWidth (a\<lparr>leftUi := None\<rparr>) - width l"
proof -
  have sx: "setX v = (\<lambda>t. t\<lparr>position := (v, snd (position t))\<rparr>)"
    and sy: "setY v = (\<lambda>t. t\<lparr>position := (fst (position t), v)\<rparr>)" for v
    by (simp_all add: fun_eq_iff setX_def setY_def setPos_def)
  have sp: "(\<lambda>t. setPos (f t) (g t) t) = (\<lambda>t. t\<lparr>position := (f t, g t)\<rparr>)" for f g
    by (simp add: fun_eq_iff setPos_def)
  have free: "freeWidth (resizeUi a0) =
       windowWidth (resizeUi a0) - fullLeftIndent (resizeUi a0)
         - (case rightUi (resizeUi a0) of Some r \<Rightarrow> width r | None \<Rightarrow> 0)"
    "freeHeight (resizeUi a0) =
       windowHeight (resizeUi a0) - fullTopIndent (resizeUi a0)
         - (case bottomUi (resizeUi a0) of Some b \<Rightarrow> height b | None \<Rightarrow> 0)"
    by (simp_all add: freeWidth_def freeHeight_def Let_def split: option.splits)
  have shift: "freeWidth (a\<lparr>leftUi := Some l\<rparr>) = freeWidth (a\<lparr>leftUi := None\<rparr>) - width l"
    by (simp add: freeWidth_def fullLeftIndent_def windowWidth_def Let_def split: option.splits)
  show ?thesis
    using free shift by (simp add: setUpNodes_slots sx sy sp fullLeftIndent_def fullTopIndent_def)
qed

text \<open>
  C6 as stated fails: a left UI that stood at x = 5 stays at x = 5, not 0, and a top
  UI that stood at y = 7 stays at y = 7.
\<close>

theorem setUpNodes_left_ui_counterexample:
  "map_option position (leftUi (setUpNodes (\<lambda>a. a) 1 actDocked)) = Some (5, 30)
   \<and> map_option position (topUi (setUpNodes (\<lambda>a. a) 1 actDocked)) = Some (50, 7)
   \<and> fullTopIndent actDocked = 30 \<and> fullLeftIndent actDocked = 50"
  by (simp add: setUpNodes_slots actDocked_def act0_def tnode0_def setY_def setX_def setPos_def
      fullTopIndent_def fullLeftIndent_def)

section \<open>AbstractNode: bulk removal\<close>

lemma removeChildren_cases:
  "(firstIndex \<le> length (children n) \<and> (lastIndex = - 1 \<or> int (length (children n)) < lastIndex) \<longrightarrow>
      removeChildren toDelete firstIndex lastIndex n =
        Inr (Node (fields n) (take firstIndex (children n)),
             if toDelete then [] else map setParent_null (drop firstIndex (children n))))
   \<and> (int firstIndex \<le> lastIndex \<and> lastIndex \<le> int (length (children n)) \<longrightarrow>
      removeChildren toDelete firstIndex lastIndex n =
        Inr (Node (fields n) (take firstIndex (children n) @ drop (nat lastIndex) (children n)),
             if toDelete then []
             else map setParent_null (take (nat lastIndex - firstIndex) (drop firstIndex (children n)))))
   \<and> (length (children n) < firstIndex \<or> lastIndex < - 1
        \<or> (0 \<le> lastIndex \<and> lastIndex < int firstIndex \<and> lastIndex \<le> int (length (children n))) \<longrightarrow>
      removeChildren toDelete firstIndex lastIndex n = Inl IteratorOutOfRange)"
  by (auto simp: removeChildren_def Let_def)

text \<open>
  C7: \<open>removeChildren\<close> clamps \<open>lastIndex\<close>, but not \<open>firstIndex\<close>. With two
  children, a \<open>lastIndex\<close> of 7 is taken as the end, and a \<open>firstIndex\<close> of 2, the
  number of children, removes nothing; a \<open>firstIndex\<close> of 3 does not remove nothing
  and return, as the claim has it: \<open>children.begin() + 3\<close> lies past the end of the
  vector, and the range that \<open>for_each\<close> and \<open>erase\<close> are given is not one.
\<close>

theorem removeChildren_firstIndex_counterexample:
  "removeChildren False 3 (- 1) twoLeaves = Inl IteratorOutOfRange
   \<and> removeChildren False 2 (- 1) twoLeaves = Inr (twoLeaves, [])
   \<and> removeChildren True 1 7 twoLeaves = Inr (Node parent0 [leaf 2 True box0], [])"
  by (simp add: removeChildren_def twoLeaves_def)

section \<open>AbstractNode: the selectable flag\<close>

lemma unselect_step:
  "(unselect (c # cs) s)(n := map_option (\<lambda>g. g\<lparr>selectedChild := None\<rparr>) (unselect (c # cs) s n))
     = unselect (n # c # cs) s"
  by (auto simp: unselect_def fun_eq_iff option.map_comp comp_def)

lemma unselect_end:
  "s n = Some f \<Longrightarrow> selectedChild f = None \<Longrightarrow> unselect [n] s = s"
  by (auto simp: unselect_def fun_eq_iff)

lemma deselectChild_chain:
  "selectedChain s n cs \<Longrightarrow> length cs < fuel \<Longrightarrow>
     deselectChild fuel s n = Some (Inr (unselect (n # cs) s, map (\<lambda>c. (c, OnMouseLeft)) cs))"
proof (induction arbitrary: fuel rule: selectedChain.induct)
  case (chain_end s n f)
  then obtain k where "fuel = Suc k" by (cases fuel) auto
  with chain_end unselect_end [of s n f] show ?case by simp
next
  case (chain_step s n f c cs)
  then obtain k where k: "fuel = Suc k" "length cs < k" by (cases fuel) auto
  from chain_step.IH [OF k(2)]
  have "deselectChild k s c = Some (Inr (unselect (c # cs) s, map (\<lambda>c. (c, OnMouseLeft)) cs))" .
  with chain_step.hyps(1,2) k(1) unselect_step [of c cs s n] show ?case by simp
qed

lemma onMouseLeft_chain:
  "selectedChain s n cs \<Longrightarrow> length cs < fuel \<Longrightarrow>
     onMouseLeft fuel s n =
       Some (Inr (unselect (n # cs) s, (n, OnMouseLeft) # map (\<lambda>c. (c, OnMouseLeft)) cs))"
  by (simp add: onMouseLeft_def deselectChild_chain)

text \<open>
  C9, as the code has it, for a live node \<open>this\<close> with the fields \<open>f\<close>.
  \<open>setSelectable\<close> with the value the flag has fires nothing. Turning the flag on,
  on a node whose parent is alive, fires a mouse-enter, and nothing else, if the
  parent reports the node as its selected child, and otherwise a mouse-leave, the
  \<open>else\<close> branch, which also serves turning the flag off. Where the chain of
  selected children below the node ends (at a live node with no selected child, within
  the fuel), the mouse-leave on the node is followed by the mouse-leaves on the nodes
  of that chain, in order, and by nothing else, and the \<open>selectedChild\<close> of the node
  and of the nodes of the chain are null afterwards.
\<close>

theorem setSelectable_events:
  assumes "s this = Some f"
  shows "(isSelectable f = v \<longrightarrow> setSelectable fuel v parent this s = Some (Inr (s, [])))
   \<and> (\<not> isSelectable f \<and> (s(this \<mapsto> f\<lparr>isSelectable := True\<rparr>)) p = Some pf
        \<and> checkChildSelected pf this \<longrightarrow>
        setSelectable fuel True (Some p) this s =
          Some (Inr (s(this \<mapsto> f\<lparr>isSelectable := True\<rparr>), [(this, OnMouseEntered)])))
   \<and> (\<not> isSelectable f \<and> (s(this \<mapsto> f\<lparr>isSelectable := True\<rparr>)) p = Some pf
        \<and> \<not> checkChildSelected pf this
        \<and> selectedChain (s(this \<mapsto> f\<lparr>isSelectable := True\<rparr>)) this cs \<and> length cs < fuel \<longrightarrow>
        setSelectable fuel True (Some p) this s =
          Some (Inr (unselect (this # cs) (s(this \<mapsto> f\<lparr>isSelectable := True\<rparr>)),
                     (this, OnMouseLeft) # map (\<lambda>c. (c, OnMouseLeft)) cs)))
   \<and> (isSelectable f
        \<and> selectedChain (s(this \<mapsto> f\<lparr>isSelectable := False\<rparr>)) this cs \<and> length cs < fuel \<longrightarrow>
        setSelectable fuel False parent this s =
          Some (Inr (unselect (this # cs) (s(this \<mapsto> f\<lparr>isSelectable := False\<rparr>)),
                     (this, OnMouseLeft) # map (\<lambda>c. (c, OnMouseLeft)) cs)))"
proof -
  have same: "isSelectable f = v \<longrightarrow> setSelectable fuel v parent this s = Some (Inr (s, []))"
    using assms by (simp add: setSelectable_def)
  have enter: "\<not> isSelectable f \<and> (s(this \<mapsto> f\<lparr>isSelectable := True\<rparr>)) p = Some pf
        \<and> checkChildSelected pf this \<longrightarrow>
        setSelectable fuel True (Some p) this s =
          Some (Inr (s(this \<mapsto> f\<lparr>isSelectable := True\<rparr>), [(this, OnMouseEntered)]))"
    using assms by (simp add: setSelectable_def Let_def)
  have on_leave: "\<not> isSelectable f \<and> (s(this \<mapsto> f\<lparr>isSelectable := True\<rparr>)) p = Some pf
        \<and> \<not> checkChildSelected pf this
        \<and> selectedChain (s(this \<mapsto> f\<lparr>isSelectable := True\<rparr>)) this cs \<and> length cs < fuel \<longrightarrow>
        setSelectable fuel True (Some p) this s =
          Some (Inr (unselect (this # cs) (s(this \<mapsto> f\<lparr>isSelectable := True\<rparr>)),
                     (this, OnMouseLeft) # map (\<lambda>c. (c, OnMouseLeft)) cs))"
    using assms onMouseLeft_chain [of "s(this \<mapsto> f\<lparr>isSelectable := True\<rparr>)" this cs fuel]
    by (simp add: setSelectable_def Let_def)
  have off: "isSelectable f
        \<and> selectedChain (s(this \<mapsto> f\<lparr>isSelectable := False\<rparr>)) this cs \<and> length cs < fuel \<longrightarrow>
        setSelectable fuel False parent this s =
          Some (Inr (unselect (this # cs) (s(this \<mapsto> f\<lparr>isSelectable := False\<rparr>)),
                     (this, OnMouseLeft) # map (\<lambda>c. (c, OnMouseLeft)) cs))"
    using assms onMouseLeft_chain [of "s(this \<mapsto> f\<lparr>isSelectable := False\<rparr>)" this cs fuel]
    by (simp add: setSelectable_def Let_def)
  from same enter on_leave off show ?thesis by blast
qed

lemma store0_chain_on:
  "selectedChain (store0(2 \<mapsto> (item 2 False (Some 3))\<lparr>isSelectable := True\<rparr>)) 2 [3, 4]"
proof -
  let ?s = "store0(2 \<mapsto> (item 2 False (Some 3))\<lparr>isSelectable := True\<rparr>)"
  have "selectedChain ?s 4 []"
    by (rule chain_end [where f = "item 4 True None"]) (simp_all add: store0_def item_def)
  then have "selectedChain ?s 3 [4]"
    by (rule chain_step [where f = "item 3 True (Some 4)", rotated 2])
       (simp_all add: store0_def item_def)
  then show ?thesis
    by (rule chain_step [where f = "(item 2 False (Some 3))\<lparr>isSelectable := True\<rparr>", rotated 2])
       (simp_all add: store0_def item_def)
qed

lemma store0_chain_off:
  "selectedChain (store0(3 \<mapsto> (item 3 True (Some 4))\<lparr>isSelectable := False\<rparr>)) 3 [4]"
proof -
  let ?s = "store0(3 \<mapsto> (item 3 True (Some 4))\<lparr>isSelectable := False\<rparr>)"
  have "selectedChain ?s 4 []"
    by (rule chain_end [where f = "item 4 True None"]) (simp_all add: store0_def item_def)
  then show ?thesis
    by (rule chain_step [where f = "(item 3 True (Some 4))\<lparr>isSelectable := False\<rparr>", rotated 2])
       (simp_all add: store0_def item_def)
qed

theorem setSelectable_events_witness:
  "setSelectable 3 True (Some 1) 2 store0 =
     Some (Inr (unselect [2, 3, 4] (store0(2 \<mapsto> (item 2 False (Some 3))\<lparr>isSelectable := True\<rparr>)),
                [(2, OnMouseLeft), (3, OnMouseLeft), (4, OnMouseLeft)]))
   \<and> setSelectable 2 False None 3 store0 =
     Some (Inr (unselect [3, 4] (store0(3 \<mapsto> (item 3 True (Some 4))\<lparr>isSelectable := False\<rparr>)),
                [(3, OnMouseLeft), (4, OnMouseLeft)]))
   \<and> setSelectable 0 True None 4 store0 = Some (Inr (store0, []))
   \<and> setSelectable 0 True (Some 1) 2 store1 =
     Some (Inr (store1(2 \<mapsto> (item 2 False None)\<lparr>isSelectable := True\<rparr>), [(2, OnMouseEntered)]))"
proof -
  have s2: "store0 2 = Some (item 2 False (Some 3))" by (simp add: store0_def)
  have s3: "store0 3 = Some (item 3 True (Some 4))" by (simp add: store0_def)
  have s4: "store0 4 = Some (item 4 True None)" by (simp add: store0_def)
  have t2: "store1 2 = Some (item 2 False None)" by (simp add: store1_def)
  have a: "setSelectable 3 True (Some 1) 2 store0 =
     Some (Inr (unselect [2, 3, 4] (store0(2 \<mapsto> (item 2 False (Some 3))\<lparr>isSelectable := True\<rparr>)),
                [(2, OnMouseLeft), (3, OnMouseLeft), (4, OnMouseLeft)]))"
    using setSelectable_events [where s = store0 and this = 2 and f = "item 2 False (Some 3)" and fuel = 3 and p = 1 and pf = "item 1 True None"
        and cs = "[3, 4]"] store0_chain_on s2
    by (simp add: store0_def item_def checkChildSelected_def)
  have b: "setSelectable 2 False None 3 store0 =
     Some (Inr (unselect [3, 4] (store0(3 \<mapsto> (item 3 True (Some 4))\<lparr>isSelectable := False\<rparr>)),
                [(3, OnMouseLeft), (4, OnMouseLeft)]))"
    using setSelectable_events [where s = store0 and this = 3 and f = "item 3 True (Some 4)" and fuel = 2 and parent = None and cs = "[4]"]
      store0_chain_off s3
    by (simp add: item_def)
  have c: "setSelectable 0 True None 4 store0 = Some (Inr (store0, []))"
    using setSelectable_events [where s = store0 and this = 4 and f = "item 4 True None" and v = True and fuel = 0 and parent = None] s4
    by (simp add: item_def)
  have d: "setSelectable 0 True (Some 1) 2 store1 =
     Some (Inr (store1(2 \<mapsto> (item 2 False None)\<lparr>isSelectable := True\<rparr>), [(2, OnMouseEntered)]))"
    using setSelectable_events [where s = store1 and this = 2 and f = "item 2 False None" and fuel = 0 and p = 1 and pf = "item 1 True (Some 2)"] t2
    by (simp add: store1_def item_def checkChildSelected_def)
  from a b c d show ?thesis by simp
qed

text \<open>
  Turning the flag on, on a node that its parent has not selected, fires events: the
  mouse-leave on the node and on the chain of selected children below it.
\<close>

theorem setSelectable_on_fires_leave:
  "(case setSelectable 3 True (Some 1) 2 store0 of
      Some (Inr (s, tr)) \<Rightarrow> tr = [(2, OnMouseLeft), (3, OnMouseLeft), (4, OnMouseLeft)]
        \<and> map_option isSelectable (s 2) = Some True
        \<and> map_option selectedChild (s 2) = Some None
        \<and> map_option selectedChild (s 3) = Some None
    | _ \<Rightarrow> False)"
  by (simp add: setSelectable_def onMouseLeft_def store0_def item_def checkChildSelected_def
      eval_nat_numeral)

section \<open>AbstractNode: selection\<close>

lemma nkey_upd [simp]:
  "nkey (g\<lparr>isTransformed := a\<rparr>) = nkey g"
  "nkey (g\<lparr>combinedTransform := b\<rparr>) = nkey g"
  "nkey (g\<lparr>selectedChild := c\<rparr>) = nkey g"
  by (simp_all add: nkey_def)
















section \<open>AbstractNode: the cached combined transform\<close>

lemma tkey_cache [simp]:
  "tkey (f\<lparr>isTransformed := a, combinedTransform := b\<rparr>) = tkey f"
  "tkey (f\<lparr>isTransformed := a\<rparr>) = tkey f"
  by (simp_all add: tkey_def)

lemma worldTransform_cong:
  "map tkey (f # anc) = map tkey (g # anc') \<Longrightarrow> worldTransform compose f anc = worldTransform compose g anc'"
proof (induction anc arbitrary: f g anc')
  case Nil
  then show ?case by (auto simp: tkey_def split: option.splits)
next
  case (Cons p anc)
  then obtain q anc2 where a: "anc' = q # anc2" by (cases anc') auto
  with Cons.prems have "map tkey (p # anc) = map tkey (q # anc2)" by simp
  from Cons.IH [OF this] Cons.prems a show ?case
    by (auto simp: tkey_def split: option.splits)
qed






lemma cacheValid_cong2:
  "tkey f = tkey g \<Longrightarrow> isTransformed f = isTransformed g \<Longrightarrow> combinedTransform f = combinedTransform g
    \<Longrightarrow> map tkey anc = map tkey anc' \<Longrightarrow> cacheValid compose f anc = cacheValid compose g anc'"
  using worldTransform_cong [of f anc g anc' compose] by (simp add: cacheValid_def tkey_def)



lemma treeValid_fields:
  "treeValid compose anc n \<Longrightarrow> cacheValid compose (fields n) anc"
  by (cases n) simp






lemma makeTransformed_shape:
  "chainAt anc (makeTransformed n) p \<noteq> None \<longleftrightarrow> chainAt anc' n p \<noteq> None"
proof (induction p arbitrary: anc anc' n)
  case Nil
  then show ?case by simp
next
  case (Cons i p)
  obtain g cs where n: "n = Node g cs" by (cases n)
  show ?case using Cons.IH [where n = "cs ! i"] n by auto
qed










end
